theory Spec2Isabelle
  imports
    Main
    "HOL-Library.Char_ord"
    "HOL-Library.List_Lexorder"
    "HOL-Library.Sublist"
begin

section \<open>Symptom checker chatbot: the per-turn pipeline of \<open>backend/chatbot.py\<close>\<close>

text \<open>
  The development embeds the class \<open>SymptomCheckerBot\<close>. Python strings are
  modelled as \<^typ>\<open>string\<close>, that is as lists of 8-bit characters: the text is
  ASCII, and the few non-ASCII characters of the source's literals (the bullet, the
  non-breaking hyphen, the typographic apostrophe) are written as their UTF-8 bytes.
  Python's \<open>p in text\<close> on strings is \<^const>\<open>sublist\<close> (a contiguous
  occurrence), \<open>sorted\<close> on strings is the lexicographic order on character codes.
\<close>

subsection \<open>Strings\<close>

definition is_upper :: "char \<Rightarrow> bool" where
  "is_upper c = (CHR ''A'' \<le> c \<and> c \<le> CHR ''Z'')"

definition is_lower :: "char \<Rightarrow> bool" where
  "is_lower c = (CHR ''a'' \<le> c \<and> c \<le> CHR ''z'')"

definition is_digit :: "char \<Rightarrow> bool" where
  "is_digit c = (CHR ''0'' \<le> c \<and> c \<le> CHR ''9'')"

text \<open>Whitespace as \<open>str.strip\<close> and the regular expression class \<open>\s\<close> see it
  on ASCII: tab, line feed, vertical tab, form feed, carriage return, the four
  separators \<open>0x1C\<close> to \<open>0x1F\<close>, and the space.\<close>

definition is_space :: "char \<Rightarrow> bool" where
  "is_space c = ((CHR 0x09 \<le> c \<and> c \<le> CHR 0x0D) \<or> (CHR 0x1C \<le> c \<and> c \<le> CHR 0x20))"

text \<open>The class \<open>\w\<close>: letters, digits and the underscore.\<close>

definition is_word :: "char \<Rightarrow> bool" where
  "is_word c = (is_lower c \<or> is_upper c \<or> is_digit c \<or> c = CHR ''_'')"

text \<open>An upper-case letter is moved 32 codes up; on \<open>A\<close> to \<open>Z\<close> that is setting
  bit 5 of the code.\<close>

definition lower_char :: "char \<Rightarrow> char" where
  "lower_char c =
     (if is_upper c
      then (case c of Char b0 b1 b2 b3 b4 b5 b6 b7 \<Rightarrow> Char b0 b1 b2 b3 b4 True b6 b7)
      else c)"

text \<open>\<open>str.lower()\<close>\<close>

definition lower :: "string \<Rightarrow> string" where
  "lower s = map lower_char s"

text \<open>\<open>sep.join(xs)\<close>\<close>

fun join :: "string \<Rightarrow> string list \<Rightarrow> string" where
  "join sep [] = []"
| "join sep [x] = x"
| "join sep (x # y # ys) = x @ sep @ join sep (y # ys)"

text \<open>\<open>str.strip()\<close>\<close>

definition strip :: "string \<Rightarrow> string" where
  "strip s = rev (dropWhile is_space (rev (dropWhile is_space s)))"

text \<open>\<open>re.split(r'[,:;]', item)\<close>: the pieces between the separator characters,
  empty pieces included.\<close>

definition is_sep :: "char \<Rightarrow> bool" where
  "is_sep c = (c = CHR '','' \<or> c = CHR '':'' \<or> c = CHR '';'')"

fun re_split :: "string \<Rightarrow> string list" where
  "re_split [] = [[]]"
| "re_split (c # cs) =
     (if is_sep c then [] # re_split cs
      else (case re_split cs of [] \<Rightarrow> [[c]] | w # ws \<Rightarrow> (c # w) # ws))"

text \<open>\<open>list(dict.fromkeys(xs))\<close>: duplicates removed, the first occurrence of
  each element kept in place. The accumulator is the keys inserted so far.\<close>

fun fromkeys :: "'a list \<Rightarrow> 'a list \<Rightarrow> 'a list" where
  "fromkeys seen [] = []"
| "fromkeys seen (x # xs) =
     (if x \<in> set seen then fromkeys seen xs else x # fromkeys (seen @ [x]) xs)"

definition dict_fromkeys :: "'a list \<Rightarrow> 'a list" where
  "dict_fromkeys xs = fromkeys [] xs"

subsection \<open>Case state\<close>

text \<open>
  \<open>current_case\<close> and the \<open>facts\<close> dictionary of the extractor have the same
  five keys. A scalar is \<open>None\<close> or a string. The Python \<open>set\<close> of associated
  symptoms is a list in some internal order, read only through membership, emptiness
  and \<open>sorted\<close>; \<open>set.add\<close> keeps it free of duplicates.
\<close>

record case_state =
  onset :: "string option"
  location :: "string option"
  severity :: "string option"
  associated_symptoms :: "string list"
  duration :: "string option"

type_synonym facts = case_state

definition empty_case :: case_state where
  "empty_case = \<lparr>onset = None, location = None, severity = None,
                  associated_symptoms = [], duration = None\<rparr>"

text \<open>Python truthiness of an optional string: \<open>None\<close> and \<open>''\<close> are false.\<close>

fun truthy :: "string option \<Rightarrow> bool" where
  "truthy None = False"
| "truthy (Some s) = (s \<noteq> [])"

definition set_add :: "string \<Rightarrow> string list \<Rightarrow> string list" where
  "set_add x xs = (if x \<in> set xs then xs else xs @ [x])"

definition set_update :: "string list \<Rightarrow> string list \<Rightarrow> string list" where
  "set_update xs ys = fold set_add ys xs"

definition update_case_state :: "facts \<Rightarrow> case_state \<Rightarrow> case_state" where
  "update_case_state fs cs =
     (let c1 = (if truthy (onset fs) then cs\<lparr>onset := onset fs\<rparr> else cs);
          c2 = (if truthy (location fs) then c1\<lparr>location := location fs\<rparr> else c1);
          c3 = (if truthy (severity fs) then c2\<lparr>severity := severity fs\<rparr> else c2);
          c4 = (if truthy (duration fs) then c3\<lparr>duration := duration fs\<rparr> else c3)
      in if associated_symptoms fs \<noteq> []
         then c4\<lparr>associated_symptoms :=
                   set_update (associated_symptoms c4) (associated_symptoms fs)\<rparr>
         else c4)"

text \<open>\<open>sorted(s)\<close> of a set of strings.\<close>

definition sorted_set :: "string list \<Rightarrow> string list" where
  "sorted_set xs = sort (remdups xs)"

definition scalar_part :: "string \<Rightarrow> string option \<Rightarrow> string list" where
  "scalar_part label v =
     (case v of None \<Rightarrow> [] | Some s \<Rightarrow> if s = [] then [] else [label @ s])"

definition summary_parts :: "case_state \<Rightarrow> string list" where
  "summary_parts cs =
     scalar_part ''onset '' (onset cs) @
     scalar_part ''duration '' (duration cs) @
     scalar_part ''location '' (location cs) @
     scalar_part ''severity '' (severity cs) @
     (if associated_symptoms cs \<noteq> []
      then [''symptoms '' @ join '', '' (sorted_set (associated_symptoms cs))]
      else [])"

definition case_summary_text :: "case_state \<Rightarrow> string" where
  "case_summary_text cs =
     (let parts = summary_parts cs
      in if parts = [] then ''abdominal pain'' else join ''; '' parts)"

subsection \<open>Knowledge base\<close>

text \<open>
  \<open>medical_data\<close> is the rich JSON document, or the fallback with empty lists. A
  cause and a remedy are JSON objects read with \<open>.get\<close>: a missing key is
  \<open>None\<close>.
\<close>

record cause =
  condition :: "string option"
  description :: "string option"
  symptoms :: "string list option"

record home_remedy =
  remedy :: "string option"
  remedy_description :: "string option"

record medical_doc =
  causes :: "cause list"
  emergency_symptoms :: "string list"
  home_remedies :: "home_remedy list"

subsection \<open>Red flags\<close>

definition emergency_hit :: "string \<Rightarrow> string \<Rightarrow> bool" where
  "emergency_hit text item =
     list_ex (\<lambda>term. term \<noteq> [] \<and> sublist term text) (map strip (re_split item))"

definition red_flag_check :: "medical_doc \<Rightarrow> case_state \<Rightarrow> string list" where
  "red_flag_check md cs =
     (let emergencies = map lower (emergency_symptoms md);
          text = lower (case_summary_text cs);
          flags = filter (emergency_hit text) emergencies;
          flags = flags @ (if severity cs = Some ''severe''
                           then [''Severe abdominal pain''] else []);
          flags = flags @ (if ''fever'' \<in> set (associated_symptoms cs)
                           then [''Pain with fever''] else []);
          flags = flags @ (if ''vomiting'' \<in> set (associated_symptoms cs) \<and> sublist ''blood'' text
                           then [''Vomiting blood''] else [])
      in dict_fromkeys flags)"

subsection \<open>Regular expressions\<close>

text \<open>
  The patterns of the source use literals, the word boundary \<open>\b\<close>, alternation,
  and the greedy repetitions \<open>\d+\<close>, \<open>\s+\<close> and \<open>\s*\<close>. A pattern is matched the
  way Python's backtracking matcher does it: \<open>rx_match r t i\<close> lists the positions
  where a match of \<open>r\<close> starting at position \<open>i\<close> of \<open>t\<close> can end, in the order
  the matcher tries them (the first alternative first, the longest repetition first).
  \<open>re.search\<close> takes the leftmost start that has a match, and there the first end.
\<close>

datatype cls = Digit | Space

fun in_cls :: "cls \<Rightarrow> char \<Rightarrow> bool" where
  "in_cls Digit c = is_digit c"
| "in_cls Space c = is_space c"

datatype rx =
    Lit string
  | Bnd
  | Many cls nat
  | Alt rx rx
  | Seq rx rx

definition at_boundary :: "string \<Rightarrow> nat \<Rightarrow> bool" where
  "at_boundary t i =
     ((0 < i \<and> i \<le> length t \<and> is_word (t ! (i - 1))) \<noteq> (i < length t \<and> is_word (t ! i)))"

fun rx_match :: "rx \<Rightarrow> string \<Rightarrow> nat \<Rightarrow> nat list" where
  "rx_match (Lit w) t i = (if take (length w) (drop i t) = w then [i + length w] else [])"
| "rx_match Bnd t i = (if at_boundary t i then [i] else [])"
| "rx_match (Many k n) t i =
     (let m = length (takeWhile (in_cls k) (drop i t))
      in map (\<lambda>j. i + j) (rev [n..<Suc m]))"
| "rx_match (Alt a b) t i = rx_match a t i @ rx_match b t i"
| "rx_match (Seq a b) t i = concat (map (rx_match b t) (rx_match a t i))"

fun search_from :: "rx \<Rightarrow> string \<Rightarrow> nat list \<Rightarrow> (nat \<times> nat) option" where
  "search_from r t [] = None"
| "search_from r t (i # is) =
     (case rx_match r t i of [] \<Rightarrow> search_from r t is | e # _ \<Rightarrow> Some (i, e))"

definition re_search :: "rx \<Rightarrow> string \<Rightarrow> (nat \<times> nat) option" where
  "re_search r t = search_from r t [0..<Suc (length t)]"

text \<open>\<open>m.group(0)\<close>\<close>

definition group0 :: "string \<Rightarrow> nat \<times> nat \<Rightarrow> string" where
  "group0 t m = take (snd m - fst m) (drop (fst m) t)"

fun alts :: "rx \<Rightarrow> rx list \<Rightarrow> rx" where
  "alts r [] = r"
| "alts r (s # ss) = Alt r (alts s ss)"

fun seqs :: "rx \<Rightarrow> rx list \<Rightarrow> rx" where
  "seqs r [] = r"
| "seqs r (s # ss) = Seq r (seqs s ss)"

subsection \<open>Greetings\<close>

definition greeting_patterns :: "rx list" where
  "greeting_patterns =
     [seqs Bnd [alts (Lit ''hi'') [Lit ''hello'', Lit ''hey'', Lit ''good morning'',
                                   Lit ''good afternoon'', Lit ''good evening''], Bnd],
      seqs Bnd [Lit ''how are you'', Bnd],
      seqs Bnd [Lit ''what's up'', Bnd],
      seqs Bnd [Lit ''how's it going'', Bnd]]"

definition is_greeting :: "string \<Rightarrow> bool" where
  "is_greeting message =
     (let message_lower = lower message
      in list_ex (\<lambda>pattern. re_search pattern message_lower \<noteq> None) greeting_patterns)"

definition bullet :: string where
  "bullet = [CHR 0xE2, CHR 0x80, CHR 0xA2]"

definition nb_hyphen :: string where
  "nb_hyphen = [CHR 0xE2, CHR 0x80, CHR 0x91]"

definition apostrophe :: string where
  "apostrophe = [CHR 0xE2, CHR 0x80, CHR 0x99]"

definition nl :: string where
  "nl = [CHR 0x0A]"

definition responses_causes :: "string list" where
  "responses_causes =
     [''Abdominal pain in adults can be caused by various factors including:'',
      bullet @ '' Indigestion or heartburn'',
      bullet @ '' Food poisoning'',
      bullet @ '' Stomach flu (gastroenteritis)'',
      bullet @ '' Irritable bowel syndrome (IBS)'',
      bullet @ '' Constipation'',
      bullet @ '' Gas and bloating'',
      bullet @ '' Appendicitis'',
      bullet @ '' Gallstones'',
      bullet @ '' Kidney stones'',
      bullet @ '' Ulcers'',
      bullet @ '' Inflammatory bowel disease (IBD)'']"

definition responses_symptoms :: "string list" where
  "responses_symptoms =
     [''Common symptoms associated with abdominal pain include:'',
      bullet @ '' Cramping or sharp pain'',
      bullet @ '' Nausea and vomiting'',
      bullet @ '' Loss of appetite'',
      bullet @ '' Fever'',
      bullet @ '' Diarrhea or constipation'',
      bullet @ '' Bloating'',
      bullet @ '' Heartburn'',
      bullet @ '' Pain that radiates to other areas'']"

definition responses_when_to_seek_help :: "string list" where
  "responses_when_to_seek_help =
     [''Seek immediate medical attention if you experience:'',
      bullet @ '' Severe, sudden abdominal pain'',
      bullet @ '' Pain with fever'',
      bullet @ '' Pain with vomiting blood'',
      bullet @ '' Pain with black, tarry stools'',
      bullet @ '' Pain that lasts more than 24 hours'',
      bullet @ '' Pain that gets worse over time'',
      bullet @ '' Pain with difficulty breathing'',
      bullet @ '' Pain with chest pressure'']"

definition responses_home_remedies :: "string list" where
  "responses_home_remedies =
     [''For mild abdominal pain, you can try:'',
      bullet @ '' Rest and avoid strenuous activity'',
      bullet @ '' Apply a heating pad to the area'',
      bullet @ '' Drink clear fluids (water, broth)'',
      bullet @ '' Eat bland foods (rice, toast, bananas)'',
      bullet @ '' Avoid spicy, fatty, or acidic foods'',
      bullet @ '' Take over-the-counter pain relievers if appropriate'',
      bullet @ '' Practice relaxation techniques'']"

text \<open>\<open>np.random.choice\<close> is a draw \<open>k\<close> supplied from outside.\<close>

definition greetings :: "string list" where
  "greetings =
     [''Hello! I'm your symptom checker assistant. I'm here to help you understand abdominal pain and related symptoms. How can I assist you today?'',
      ''Hi there! I'm a medical AI assistant specializing in abdominal pain. I can help answer your questions about symptoms, causes, and when to seek medical attention. What would you like to know?'',
      ''Hello! I'm here to help you with questions about abdominal pain in adults. I can provide information about causes, symptoms, and treatment options. How may I help you?'']"

definition get_greeting_response :: "nat \<Rightarrow> string" where
  "get_greeting_response k = greetings ! (k mod 3)"

subsection \<open>Fact extraction\<close>

definition onset_today_rx :: rx where
  "onset_today_rx =
     seqs Bnd [alts (Lit ''today'')
                 [seqs (Lit ''this'') [Many Space 1, Lit ''morning''],
                  seqs (Lit ''this'') [Many Space 1, Lit ''evening''],
                  Lit ''now'', Lit ''just'', Lit ''since''], Bnd]"

definition onset_yesterday_rx :: rx where
  "onset_yesterday_rx =
     seqs Bnd [alts (Lit ''yesterday'') [seqs (Lit ''last'') [Many Space 1, Lit ''night'']], Bnd]"

definition duration_rx :: rx where
  "duration_rx =
     seqs Bnd [alts (Many Digit 1) [Lit ''one'', Lit ''two'', Lit ''three'', Lit ''four'', Lit ''five''],
               Many Space 0,
               alts (Lit ''hour'') [Lit ''hours'', Lit ''day'', Lit ''days''], Bnd]"

definition location_map :: "(string \<times> string list) list" where
  "location_map =
     [(''upper right'', [''upper right'', ''right upper'', ''ruq'']),
      (''upper left'', [''upper left'', ''left upper'', ''luq'']),
      (''lower right'', [''lower right'', ''right lower'', ''rlq'']),
      (''lower left'', [''lower left'', ''left lower'', ''llq'']),
      (''upper abdomen'', [''upper abdomen'', ''upper stomach'']),
      (''lower abdomen'', [''lower abdomen'', ''lower stomach'']),
      (''whole abdomen'', [''whole abdomen'', ''entire abdomen'', ''all over'', ''whole stomach''])]"

definition assoc_terms :: "string list" where
  "assoc_terms =
     [''nausea'', ''vomiting'', ''diarrhea'', ''constipation'', ''fever'', ''bloating'',
      ''heartburn'', ''gas'', ''loss of appetite'', ''back pain'', ''shoulder pain'']"

text \<open>\<open>any(w in text for w in words)\<close>\<close>

definition any_in :: "string list \<Rightarrow> string \<Rightarrow> bool" where
  "any_in words text = list_ex (\<lambda>w. sublist w text) words"

definition extract_onset :: "string \<Rightarrow> string option" where
  "extract_onset text =
     (let o1 = (if re_search onset_today_rx text \<noteq> None then Some ''today'' else None)
      in if re_search onset_yesterday_rx text \<noteq> None then Some ''yesterday'' else o1)"

definition extract_duration :: "string \<Rightarrow> string option" where
  "extract_duration text =
     (case re_search duration_rx text of None \<Rightarrow> None | Some m \<Rightarrow> Some (group0 text m))"

definition extract_location :: "string \<Rightarrow> string option" where
  "extract_location text =
     map_option fst (find (\<lambda>(loc_label, patterns). any_in patterns text) location_map)"

definition extract_severity :: "string \<Rightarrow> string option" where
  "extract_severity text =
     (if sublist ''mild'' text then Some ''mild''
      else if sublist ''moderate'' text then Some ''moderate''
      else if sublist ''severe'' text \<or> sublist ''worst'' text then Some ''severe''
      else None)"

definition extract_symptoms :: "string \<Rightarrow> string list" where
  "extract_symptoms text =
     (let found = fold set_add (filter (\<lambda>term. sublist term text) assoc_terms) []
      in if sublist ''vomit'' text \<and> ''vomiting'' \<notin> set found
         then set_add ''vomiting'' found else found)"

definition extract_structured_facts :: "string \<Rightarrow> facts" where
  "extract_structured_facts message =
     (let text = lower message
      in \<lparr>onset = extract_onset text,
          location = extract_location text,
          severity = extract_severity text,
          associated_symptoms = extract_symptoms text,
          duration = extract_duration text\<rparr>)"

subsection \<open>Embedding provider and cause ranking\<close>

text \<open>
  \<open>self.model.encode\<close> is the external embedding provider: it maps a batch of texts to
  one vector per text, or raises. The vectors and the similarity scores are floating
  point numbers in the source; here they are abstract: a type \<open>'v\<close> of vectors, a
  linearly ordered type \<open>'s\<close> of scores, and the similarity of two vectors as a
  parameter. \<open>cosine_similarity\<close> rejects an array without rows with a
  \<open>ValueError\<close>. Every function that may call the provider also returns the list of
  the batches it has sent, in order.
\<close>

datatype error = EmbeddingProviderError | ValueError

record ('v, 's) bot_env =
  encode :: "string list \<Rightarrow> error + 'v list"
  similarity :: "'v \<Rightarrow> 'v \<Rightarrow> 's"
  medical_data :: medical_doc
  random_choice :: nat

definition or_empty :: "'a list option \<Rightarrow> 'a list" where
  "or_empty v = (case v of None \<Rightarrow> [] | Some x \<Rightarrow> x)"

definition cause_text :: "cause \<Rightarrow> string" where
  "cause_text c =
     or_empty (condition c) @ ''. '' @ or_empty (description c) @ ''. Symptoms: '' @
     join '', '' (or_empty (symptoms c))"

text \<open>\<open>sorted(pairs, key=lambda x: x[1], reverse=True)\<close>: descending by score, and
  stable, so pairs of equal score keep their order.\<close>

fun insort_desc :: "'a \<times> 's::linorder \<Rightarrow> ('a \<times> 's) list \<Rightarrow> ('a \<times> 's) list" where
  "insort_desc x [] = [x]"
| "insort_desc x (y # ys) = (if snd y \<le> snd x then x # y # ys else y # insort_desc x ys)"

definition sorted_desc :: "('a \<times> 's::linorder) list \<Rightarrow> ('a \<times> 's) list" where
  "sorted_desc xs = foldr insort_desc xs []"

definition rank_causes ::
  "('v, 's::linorder) bot_env \<Rightarrow> case_state \<Rightarrow> string list list \<times> (error + (cause \<times> 's) list)" where
  "rank_causes env cs =
     (let cs0 = causes (medical_data env)
      in if cs0 = [] then ([], Inr [])
         else
           let case_text = case_summary_text cs;
               cause_texts = map cause_text cs0
           in case encode env [case_text] of
                Inl e \<Rightarrow> ([[case_text]], Inl e)
              | Inr case_vec \<Rightarrow>
                  (case encode env cause_texts of
                     Inl e \<Rightarrow> ([[case_text], cause_texts], Inl e)
                   | Inr cause_vecs \<Rightarrow>
                       (case case_vec of
                          [] \<Rightarrow> ([[case_text], cause_texts], Inl ValueError)
                        | v # _ \<Rightarrow>
                            if cause_vecs = [] then ([[case_text], cause_texts], Inl ValueError)
                            else
                              let sims = map (similarity env v) cause_vecs;
                                  ranked = sorted_desc (zip cs0 sims)
                              in ([[case_text], cause_texts], Inr (take 3 ranked)))))"

subsection \<open>Response composition\<close>

text \<open>\<open>str(x)\<close> of an optional string, as an f-string renders it.\<close>

definition py_str :: "string option \<Rightarrow> string" where
  "py_str v = (case v of None \<Rightarrow> ''None'' | Some s \<Rightarrow> s)"

definition follow_up_needs :: "case_state \<Rightarrow> string list" where
  "follow_up_needs cs =
     (if \<not> truthy (location cs) then [''where exactly the pain is located''] else []) @
     (if \<not> truthy (severity cs) then [''how severe it feels (mild, moderate, severe)''] else []) @
     (if \<not> truthy (onset cs) \<and> \<not> truthy (duration cs)
      then [''when it started and for how long''] else [])"

definition analysis_lines ::
  "medical_doc \<Rightarrow> case_state \<Rightarrow> string list \<Rightarrow> (cause \<times> 's) list \<Rightarrow> string list" where
  "analysis_lines md cs red_flags ranked =
     [''Thanks for the details. From what you've shared ('' @ case_summary_text cs @
      ''), here are the most likely possibilities based on my training data:''] @
     (if ranked \<noteq> []
      then map (\<lambda>(c, score). bullet @ '' '' @ py_str (condition c) @ '': '' @
                 py_str (description c)) ranked
      else [bullet @ '' I need a bit more detail (location, severity, associated symptoms) to narrow causes.'']) @
     (if red_flags \<noteq> []
      then [nl @ ''Based on red-flag symptoms, I recommend urgent medical attention:''] @
           map (\<lambda>f. bullet @ '' '' @ f) (take 5 red_flags)
      else if home_remedies md \<noteq> []
      then [nl @ ''Self'' @ nb_hyphen @ ''care that may help for mild symptoms:''] @
           map (\<lambda>r. bullet @ '' '' @ py_str (remedy r) @ '': '' @
                 py_str (remedy_description r)) (take 4 (home_remedies md))
      else []) @
     (let need = follow_up_needs cs
      in if need \<noteq> []
         then [nl @ ''To improve accuracy, please tell me '' @ join '', '' need @ ''.'']
         else []) @
     [nl @ ''Note: I share general information about abdominal pain in adults and don'' @
      apostrophe @ ''t replace a clinician.'']"

definition build_analysis_response ::
  "('v, 's::linorder) bot_env \<Rightarrow> case_state \<Rightarrow> string list list \<times> (error + string)" where
  "build_analysis_response env cs =
     (let red_flags = red_flag_check (medical_data env) cs;
          (calls, r) = rank_causes env cs
      in case r of
           Inl e \<Rightarrow> (calls, Inl e)
         | Inr ranked \<Rightarrow>
             (calls, Inr (join nl (analysis_lines (medical_data env) cs red_flags ranked))))"

subsection \<open>Dialogue\<close>

text \<open>The four keyword groups of the direct knowledge queries, in the order the
  source tests them.\<close>

definition causes_words :: "string list" where
  "causes_words = [''cause'', ''causes'', ''why'', ''reason'']"

definition symptoms_words :: "string list" where
  "symptoms_words = [''symptom'', ''symptoms'', ''sign'', ''signs'']"

definition emergency_words :: "string list" where
  "emergency_words = [''emergency'', ''urgent'', ''hospital'', ''doctor'', ''medical attention'']"

definition remedy_words :: "string list" where
  "remedy_words = [''home'', ''remedy'', ''treatment'', ''cure'', ''help'']"

text \<open>The result of \<open>_get_abdominal_pain_response\<close>: the provider calls made, the
  response or the exception raised, and \<open>current_case\<close> as the call leaves it.\<close>

definition get_abdominal_pain_response ::
  "('v, 's::linorder) bot_env \<Rightarrow> case_state \<Rightarrow> string \<Rightarrow>
     string list list \<times> (error + string) \<times> case_state" where
  "get_abdominal_pain_response env cs message =
     (let message_lower = lower message
      in if any_in causes_words message_lower
         then ([], Inr (join nl responses_causes), cs)
         else if any_in symptoms_words message_lower
         then ([], Inr (join nl responses_symptoms), cs)
         else if any_in emergency_words message_lower
         then ([], Inr (join nl responses_when_to_seek_help), cs)
         else if any_in remedy_words message_lower
         then ([], Inr (join nl responses_home_remedies), cs)
         else
           let facts = extract_structured_facts message;
               cs' = update_case_state facts cs;
               (calls, r) = build_analysis_response env cs'
           in (calls, r, cs'))"

record turn =
  user :: string
  timestamp :: "unit option"
  bot :: "string option"

record bot_state =
  conversation_history :: "turn list"
  session_in_scope :: bool
  current_case :: case_state

definition initial_state :: bot_state where
  "initial_state = \<lparr>conversation_history = [], session_in_scope = False,
                     current_case = empty_case\<rparr>"

definition scope_words :: "string list" where
  "scope_words = [''abdominal'', ''stomach'', ''belly'', ''gut'', ''pain'']"

definition abdominal_keywords :: "string list" where
  "abdominal_keywords =
     [''abdominal'', ''stomach'', ''belly'', ''gut'', ''pain'', ''ache'', ''cramp'',
      ''indigestion'', ''heartburn'', ''nausea'', ''vomiting'', ''diarrhea'',
      ''constipation'', ''bloating'', ''gas'', ''appendicitis'', ''ulcer'']"

definition is_out_of_scope :: "bot_state \<Rightarrow> string \<Rightarrow> bool" where
  "is_out_of_scope st message =
     (let has_abdominal_keywords = any_in abdominal_keywords (lower message)
      in \<not> (has_abdominal_keywords \<or> session_in_scope st \<or> is_greeting message))"

definition refusal :: string where
  "refusal = ''I apologize, but I'm specifically trained to help with abdominal pain in adults. I can provide information about causes, symptoms, when to seek medical attention, and home remedies related to abdominal pain. Please ask me about abdominal pain or related symptoms.''"

text \<open>\<open>self.conversation_history[-1]['bot'] = response\<close>\<close>

definition set_last_bot :: "string \<Rightarrow> bot_state \<Rightarrow> bot_state" where
  "set_last_bot response st =
     (case rev (conversation_history st) of
        [] \<Rightarrow> st
      | t # ts \<Rightarrow> st\<lparr>conversation_history := rev ts @ [t\<lparr>bot := Some response\<rparr>]\<rparr>)"

text \<open>One turn: the response returned or the exception that leaves
  \<open>get_response\<close>, and the bot's state afterwards (an exception does not undo the
  assignments made before it).\<close>

definition get_response ::
  "('v, 's::linorder) bot_env \<Rightarrow> bot_state \<Rightarrow> string \<Rightarrow> (error + string) \<times> bot_state" where
  "get_response env st message =
     (let st1 = st\<lparr>conversation_history :=
                     conversation_history st @ [\<lparr>user = message, timestamp = None, bot = None\<rparr>]\<rparr>
      in if is_greeting message
         then (let response = get_greeting_response (random_choice env)
               in (Inr response, set_last_bot response st1))
         else
           let st2 = (if \<not> session_in_scope st1 \<and> any_in scope_words (lower message)
                      then st1\<lparr>session_in_scope := True\<rparr> else st1)
           in if is_out_of_scope st2 message
              then (Inr refusal, set_last_bot refusal st2)
              else
                let st3 = st2\<lparr>session_in_scope := True\<rparr>;
                    (calls, r, cs') = get_abdominal_pain_response env (current_case st3) message;
                    st4 = st3\<lparr>current_case := cs'\<rparr>
                in case r of
                     Inl e \<Rightarrow> (Inl e, st4)
                   | Inr response \<Rightarrow> (Inr response, set_last_bot response st4))"

text \<open>A conversation: the turns in order, each with the environment it runs in.\<close>

fun run_turns ::
  "bot_state \<Rightarrow> (('v, 's::linorder) bot_env \<times> string) list \<Rightarrow> bot_state" where
  "run_turns st [] = st"
| "run_turns st ((env, message) # rest) = run_turns (snd (get_response env st message)) rest"

subsection \<open>What a pattern matches\<close>

text \<open>The words a pattern matches, without the context that \<open>\b\<close> looks at: every end
  position that \<open>rx_match\<close> lists cuts such a word out of the text.\<close>

fun matches :: "rx \<Rightarrow> string \<Rightarrow> bool" where
  "matches (Lit w) s = (s = w)"
| "matches Bnd s = (s = [])"
| "matches (Many k n) s = (n \<le> length s \<and> list_all (in_cls k) s)"
| "matches (Alt a b) s = (matches a s \<or> matches b s)"
| "matches (Seq a b) s = (\<exists>s1 s2. s = s1 @ s2 \<and> matches a s1 \<and> matches b s2)"

subsection \<open>A scanner for a doubled letter o\<close>

text \<open>
  A three-state scanner that reads a text as \<open>lower\<close> would return it and reaches
  \<open>Found\<close> once it has read two consecutive letters \<open>o\<close>. A case is free of the
  pattern when the scanner does not find it in any of its field values.
\<close>

datatype scan = Start | SeenO | Found

definition is_o :: "char \<Rightarrow> bool" where
  "is_o c = (lower_char c = CHR ''o'')"

fun oo_step :: "scan \<Rightarrow> char \<Rightarrow> scan" where
  "oo_step Found c = Found"
| "oo_step SeenO c = (if is_o c then Found else Start)"
| "oo_step Start c = (if is_o c then SeenO else Start)"

fun oo_scan :: "scan \<Rightarrow> string \<Rightarrow> scan" where
  "oo_scan q [] = q"
| "oo_scan q (c # cs) = oo_scan (oo_step q c) cs"

definition oo_free :: "string option \<Rightarrow> bool" where
  "oo_free v = (case v of None \<Rightarrow> True | Some s \<Rightarrow> oo_scan Start s \<noteq> Found)"

definition oo_free_case :: "case_state \<Rightarrow> bool" where
  "oo_free_case cs =
     (oo_free (onset cs) \<and> oo_free (duration cs) \<and> oo_free (location cs) \<and>
      oo_free (severity cs) \<and> list_all (\<lambda>x. oo_scan Start x \<noteq> Found) (associated_symptoms cs))"


subsection \<open>Example inputs\<close>

text \<open>A knowledge base with one emergency phrase, and a case with a severe pain, vomiting
  and fever.\<close>

definition md_example :: medical_doc where
  "md_example = \<lparr>causes = [], emergency_symptoms = [''Fever, chills''], home_remedies = []\<rparr>"

definition case_example :: case_state where
  "case_example = \<lparr>onset = None, location = None, severity = Some ''severe'',
      associated_symptoms = [''vomiting'', ''fever''], duration = None\<rparr>"

text \<open>A deterministic stub of the embedding provider (the vector of a text is its
  length, the score of two vectors their distance) over a four-cause knowledge base; the
  same bot with a provider that always fails, with a provider that fails on every batch
  of more than one text, and with an empty knowledge base.\<close>

definition stub_env :: "(nat, nat) bot_env" where
  "stub_env =
     \<lparr>encode = (\<lambda>texts. Inr (map length texts)),
      similarity = (\<lambda>a b. if a \<le> b then b - a else a - b),
      medical_data =
        \<lparr>causes =
           [\<lparr>condition = Some ''Gastritis'', description = Some ''Inflamed stomach lining'',
              symptoms = Some [''nausea'', ''bloating'']\<rparr>,
            \<lparr>condition = Some ''Appendicitis'', description = Some ''Inflamed appendix'',
              symptoms = Some [''fever'']\<rparr>,
            \<lparr>condition = Some ''Gallstones'', description = None, symptoms = None\<rparr>,
            \<lparr>condition = Some ''Constipation'', description = Some ''Hard stools'',
              symptoms = Some []\<rparr>],
         emergency_symptoms = [''Vomiting blood'', ''Fever, chills''],
         home_remedies = []\<rparr>,
      random_choice = 4\<rparr>"

definition failing_env :: "(nat, nat) bot_env" where
  "failing_env = stub_env\<lparr>encode := (\<lambda>texts. Inl EmbeddingProviderError)\<rparr>"

definition empty_env :: "(nat, nat) bot_env" where
  "empty_env = stub_env\<lparr>medical_data := \<lparr>causes = [], emergency_symptoms = [], home_remedies = []\<rparr>\<rparr>"

definition batch_failing_env :: "(nat, nat) bot_env" where
  "batch_failing_env =
     stub_env\<lparr>encode := (\<lambda>texts. if length texts \<le> 1 then Inr (map length texts)
                                  else Inl EmbeddingProviderError)\<rparr>"

text \<open>Two cases that differ only in the internal order of the symptom set, and the two
  turns of a conversation.\<close>

definition case_a :: case_state where
  "case_a = empty_case\<lparr>onset := Some ''today'', associated_symptoms := [''vomiting'', ''fever'']\<rparr>"

definition case_b :: case_state where
  "case_b = empty_case\<lparr>onset := Some ''today'', associated_symptoms := [''fever'', ''vomiting'']\<rparr>"

definition first_turn :: string where
  "first_turn = ''I have mild pain in my lower right abdomen since yesterday''"

definition second_turn :: string where
  "second_turn = ''now I also feel nauseous and have a fever''"

section \<open>Properties\<close>

subsection \<open>Auxiliary facts\<close>

lemma set_fromkeys: "set (fromkeys seen xs) = set xs - set seen"
  by (induction xs arbitrary: seen) auto

lemma set_dict_fromkeys: "set (dict_fromkeys xs) = set xs"
  by (simp add: dict_fromkeys_def set_fromkeys)

lemma sorted_set_eq: "sorted_set xs = sorted_list_of_set (set xs)"
  by (simp add: sorted_set_def sorted_list_of_set_sort_remdups)

lemma set_set_add: "set (set_add x xs) = insert x (set xs)"
  by (auto simp: set_add_def)

lemma set_fold_set_add: "set (fold set_add ys xs) = set xs \<union> set ys"
  by (induction ys arbitrary: xs) (auto simp: set_set_add)

lemma set_set_update: "set (set_update xs ys) = set xs \<union> set ys"
  by (simp add: set_update_def set_fold_set_add)

lemma join_snoc_suffix: "suffix x (join sep (xs @ [x]))"
  by (induction sep xs rule: join.induct) (auto simp: suffix_def)

lemma summary_same_set:
  assumes "onset cs = onset cs'" "duration cs = duration cs'" "location cs = location cs'"
    "severity cs = severity cs'" "set (associated_symptoms cs) = set (associated_symptoms cs')"
  shows "case_summary_text cs = case_summary_text cs'"
proof -
  have e: "(associated_symptoms cs = []) = (associated_symptoms cs' = [])"
    using assms(5) by (metis set_empty)
  have "summary_parts cs = summary_parts cs'"
    using assms e by (simp add: summary_parts_def sorted_set_eq)
  then show ?thesis by (simp add: case_summary_text_def)
qed

lemma summary_all_absent:
  assumes "\<not> truthy (onset cs)" "\<not> truthy (duration cs)" "\<not> truthy (location cs)"
    "\<not> truthy (severity cs)" "associated_symptoms cs = []"
  shows "case_summary_text cs = ''abdominal pain''"
proof -
  have n: "scalar_part l v = []" if "\<not> truthy v" for l v
    using that by (cases v) (simp_all add: scalar_part_def)
  show ?thesis using assms by (simp add: case_summary_text_def summary_parts_def n)
qed

lemma summary_symptoms_suffix:
  assumes "associated_symptoms cs \<noteq> []"
  shows "suffix (''symptoms '' @ join '', '' (sorted_set (associated_symptoms cs)))
           (case_summary_text cs)"
proof -
  obtain ps where
    "summary_parts cs = ps @ [''symptoms '' @ join '', '' (sorted_set (associated_symptoms cs))]"
    using assms by (simp add: summary_parts_def)
  then show ?thesis by (simp add: case_summary_text_def join_snoc_suffix)
qed

lemma update_case_state_fields:
  "onset (update_case_state fs cs) = (if truthy (onset fs) then onset fs else onset cs)"
  "location (update_case_state fs cs) =
     (if truthy (location fs) then location fs else location cs)"
  "severity (update_case_state fs cs) =
     (if truthy (severity fs) then severity fs else severity cs)"
  "duration (update_case_state fs cs) =
     (if truthy (duration fs) then duration fs else duration cs)"
  "set (associated_symptoms (update_case_state fs cs)) =
     set (associated_symptoms cs) \<union> set (associated_symptoms fs)"
  by (auto simp: update_case_state_def Let_def set_set_update)

lemma sublist_lower: "sublist w m \<Longrightarrow> lower w = w \<Longrightarrow> sublist w (lower m)"
  using map_mono_sublist [of w m lower_char] by (simp add: lower_def)

lemma lower_mild: "lower ''mild'' = ''mild''"
  by code_simp

lemma length_insort_desc: "length (insort_desc x ys) = Suc (length ys)"
  by (induction ys) auto

lemma length_sorted_desc: "length (sorted_desc xs) = length xs"
  by (induction xs) (auto simp: sorted_desc_def length_insort_desc)

lemma set_last_bot_fields:
  "current_case (set_last_bot r st) = current_case st"
  "session_in_scope (set_last_bot r st) = session_in_scope st"
  by (simp_all add: set_last_bot_def split: list.splits)

lemma set_last_bot_snoc:
  "set_last_bot r (st\<lparr>conversation_history := h @ [t]\<rparr>) =
     st\<lparr>conversation_history := h @ [t\<lparr>bot := Some r\<rparr>]\<rparr>"
  by (simp add: set_last_bot_def)

lemma any_in_scope_words: "any_in scope_words t \<Longrightarrow> any_in abdominal_keywords t"
  by (auto simp: any_in_def scope_words_def abdominal_keywords_def)

lemma direct_calls:
  "any_in causes_words (lower m) \<or> any_in symptoms_words (lower m) \<or>
   any_in emergency_words (lower m) \<or> any_in remedy_words (lower m) \<Longrightarrow>
   get_abdominal_pain_response env cs m =
     ([], Inr (join nl (if any_in causes_words (lower m) then responses_causes
                       else if any_in symptoms_words (lower m) then responses_symptoms
                       else if any_in emergency_words (lower m) then responses_when_to_seek_help
                       else responses_home_remedies)), cs)"
  by (auto simp: get_abdominal_pain_response_def Let_def)

lemma analysis_case:
  "\<not> any_in causes_words (lower m) \<Longrightarrow> \<not> any_in symptoms_words (lower m) \<Longrightarrow>
   \<not> any_in emergency_words (lower m) \<Longrightarrow> \<not> any_in remedy_words (lower m) \<Longrightarrow>
   get_abdominal_pain_response env cs m =
     (fst (build_analysis_response env (update_case_state (extract_structured_facts m) cs)),
      snd (build_analysis_response env (update_case_state (extract_structured_facts m) cs)),
      update_case_state (extract_structured_facts m) cs)"
  by (simp add: get_abdominal_pain_response_def Let_def split: prod.splits)

lemma get_response_in_scope:
  assumes "\<not> is_greeting m" "session_in_scope st \<or> any_in abdominal_keywords (lower m)"
  shows "get_response env st m =
    (let st3 = st\<lparr>conversation_history :=
                     conversation_history st @ [\<lparr>user = m, timestamp = None, bot = None\<rparr>],
                   session_in_scope := True\<rparr>;
         res = get_abdominal_pain_response env (current_case st) m;
         st4 = st3\<lparr>current_case := snd (snd res)\<rparr>
     in case fst (snd res) of
          Inl e \<Rightarrow> (Inl e, st4)
        | Inr response \<Rightarrow> (Inr response, set_last_bot response st4))"
  using assms
  by (auto simp: get_response_def is_out_of_scope_def Let_def split: prod.splits sum.splits)

lemma rank_causes_fails:
  assumes "causes (medical_data env) \<noteq> []"
    and "encode env [case_summary_text cs] = Inl e \<or>
         (\<exists>vs. encode env [case_summary_text cs] = Inr vs \<and>
               encode env (map cause_text (causes (medical_data env))) = Inl e)"
  shows "snd (rank_causes env cs) = Inl e"
  using assms by (auto simp: rank_causes_def Let_def)

subsection \<open>The example messages\<close>

lemma stomach_msg:
  "\<not> is_greeting ''my stomach hurts''"
  "any_in scope_words (lower ''my stomach hurts'')"
  "any_in abdominal_keywords (lower ''my stomach hurts'')"
  "\<not> any_in causes_words (lower ''my stomach hurts'')"
  "\<not> any_in symptoms_words (lower ''my stomach hurts'')"
  "\<not> any_in emergency_words (lower ''my stomach hurts'')"
  "\<not> any_in remedy_words (lower ''my stomach hurts'')"
  by code_simp+

lemma stomach_facts:
  "update_case_state (extract_structured_facts ''my stomach hurts'') empty_case = empty_case"
  by code_simp

lemma more_msg:
  "\<not> is_greeting ''tell me more''"
  "\<not> any_in abdominal_keywords (lower ''tell me more'')"
  "\<not> any_in causes_words (lower ''tell me more'')"
  "\<not> any_in symptoms_words (lower ''tell me more'')"
  "\<not> any_in emergency_words (lower ''tell me more'')"
  "\<not> any_in remedy_words (lower ''tell me more'')"
  by code_simp+

lemma more_facts:
  "update_case_state (extract_structured_facts ''tell me more'') empty_case = empty_case"
  by code_simp

lemma capital_msg:
  "\<not> is_greeting ''what's the capital of France''"
  "\<not> any_in abdominal_keywords (lower ''what's the capital of France'')"
  by code_simp+

lemma causes_msg:
  "\<not> is_greeting ''what causes stomach pain and what are the symptoms''"
  "any_in abdominal_keywords (lower ''what causes stomach pain and what are the symptoms'')"
  "any_in causes_words (lower ''what causes stomach pain and what are the symptoms'')"
  "any_in symptoms_words (lower ''what causes stomach pain and what are the symptoms'')"
  by code_simp+

subsection \<open>Responses that are not the refusal\<close>

lemma hd_join: "x \<noteq> [] \<Longrightarrow> hd (join sep (x # xs)) = hd x"
  by (cases xs) auto

lemma hd_refusal: "hd refusal = CHR ''I''"
  by (simp add: refusal_def)

lemma greeting_not_refusal: "get_greeting_response k \<noteq> refusal"
proof -
  have "k mod 3 = 0 \<or> k mod 3 = 1 \<or> k mod 3 = 2" by arith
  then have "hd (get_greeting_response k) = CHR ''H''"
    by (auto simp: get_greeting_response_def greetings_def)
  then show ?thesis using hd_refusal by auto
qed

lemma direct_not_refusal:
  "join nl responses_causes \<noteq> refusal"
  "join nl responses_symptoms \<noteq> refusal"
  "join nl responses_when_to_seek_help \<noteq> refusal"
  "join nl responses_home_remedies \<noteq> refusal"
  by (simp_all add: responses_causes_def responses_symptoms_def
      responses_when_to_seek_help_def responses_home_remedies_def refusal_def)

lemma analysis_not_refusal: "join nl (analysis_lines md cs flags ranked) \<noteq> refusal"
proof -
  obtain x rest where a: "analysis_lines md cs flags ranked = (CHR ''T'' # x) # rest"
    by (simp add: analysis_lines_def)
  have "hd (join nl (analysis_lines md cs flags ranked)) = CHR ''T''"
    unfolding a by (simp add: hd_join)
  then show ?thesis using hd_refusal by auto
qed

lemma pain_response_not_refusal:
  "fst (snd (get_abdominal_pain_response env cs m)) \<noteq> Inr refusal"
proof (cases "any_in causes_words (lower m) \<or> any_in symptoms_words (lower m) \<or>
   any_in emergency_words (lower m) \<or> any_in remedy_words (lower m)")
  case True
  show ?thesis
    unfolding direct_calls [OF True] using direct_not_refusal by auto
next
  case False
  then have n: "\<not> any_in causes_words (lower m)" "\<not> any_in symptoms_words (lower m)"
    "\<not> any_in emergency_words (lower m)" "\<not> any_in remedy_words (lower m)"
    by auto
  show ?thesis
    unfolding analysis_case [OF n]
    by (cases "rank_causes env (update_case_state (extract_structured_facts m) cs)")
       (auto simp: build_analysis_response_def Let_def analysis_not_refusal split: sum.splits)
qed

lemma in_scope_step:
  assumes "session_in_scope st"
  shows "session_in_scope (snd (get_response env st m)) \<and> fst (get_response env st m) \<noteq> Inr refusal"
proof (cases "is_greeting m")
  case True
  then show ?thesis using assms
    by (simp add: get_response_def Let_def set_last_bot_fields greeting_not_refusal)
next
  case False
  have r: "fst (snd (get_abdominal_pain_response env (current_case st) m)) \<noteq> Inr refusal"
    by (rule pain_response_not_refusal)
  show ?thesis
    using r
    by (auto simp: get_response_in_scope [OF False disjI1 [OF assms]] Let_def set_last_bot_fields
        split: sum.splits)
qed

lemma run_turns_append: "run_turns st (ts @ ts') = run_turns (run_turns st ts) ts'"
  by (induction st ts rule: run_turns.induct) auto

lemma run_turns_in_scope: "session_in_scope st \<Longrightarrow> session_in_scope (run_turns st ts)"
  by (induction st ts rule: run_turns.induct) (auto simp: in_scope_step)

lemma first_hit_sets_scope:
  assumes "\<not> is_greeting m" "any_in abdominal_keywords (lower m)"
  shows "session_in_scope (snd (get_response env st m))"
  by (auto simp: get_response_in_scope [OF assms(1) disjI2 [OF assms(2)]] Let_def set_last_bot_fields
      split: sum.splits)

lemma rank_stub:
  "snd (rank_causes stub_env empty_case) =
     Inr [(\<lparr>condition = Some ''Gastritis'', description = Some ''Inflamed stomach lining'',
            symptoms = Some [''nausea'', ''bloating'']\<rparr>, 48),
          (\<lparr>condition = Some ''Appendicitis'', description = Some ''Inflamed appendix'',
            symptoms = Some [''fever'']\<rparr>, 34),
          (\<lparr>condition = Some ''Constipation'', description = Some ''Hard stools'',
            symptoms = Some []\<rparr>, 23)]"
  by code_simp

lemma first_turn_case:
  "current_case (snd (get_response stub_env initial_state first_turn)) =
     \<lparr>onset = Some ''yesterday'', location = Some ''lower right'', severity = Some ''mild'',
      associated_symptoms = [], duration = None\<rparr>"
  by code_simp

lemma second_turn_facts:
  "extract_structured_facts second_turn =
     \<lparr>onset = Some ''today'', location = None, severity = None,
      associated_symptoms = [''fever''], duration = None\<rparr>"
  by code_simp

subsection \<open>The case across turns\<close>

lemma step_case:
  "current_case (snd (get_response env st m)) = current_case st \<or>
   current_case (snd (get_response env st m)) =
     update_case_state (extract_structured_facts m) (current_case st)"
  by (auto simp: get_response_def get_abdominal_pain_response_def Let_def set_last_bot_fields
      split: prod.splits sum.splits)

lemma step_keeps:
  "(truthy (onset (current_case st)) \<longrightarrow> truthy (onset (current_case (snd (get_response env st m))))) \<and>
   (truthy (duration (current_case st)) \<longrightarrow> truthy (duration (current_case (snd (get_response env st m))))) \<and>
   (truthy (location (current_case st)) \<longrightarrow> truthy (location (current_case (snd (get_response env st m))))) \<and>
   (truthy (severity (current_case st)) \<longrightarrow> truthy (severity (current_case (snd (get_response env st m))))) \<and>
   set (associated_symptoms (current_case st)) \<subseteq>
     set (associated_symptoms (current_case (snd (get_response env st m))))"
  using step_case [of env st m] by (auto simp: update_case_state_fields)

lemma run_keeps:
  "(truthy (onset (current_case st)) \<longrightarrow> truthy (onset (current_case (run_turns st ts)))) \<and>
   (truthy (duration (current_case st)) \<longrightarrow> truthy (duration (current_case (run_turns st ts)))) \<and>
   (truthy (location (current_case st)) \<longrightarrow> truthy (location (current_case (run_turns st ts)))) \<and>
   (truthy (severity (current_case st)) \<longrightarrow> truthy (severity (current_case (run_turns st ts)))) \<and>
   set (associated_symptoms (current_case st)) \<subseteq>
     set (associated_symptoms (current_case (run_turns st ts)))"
proof (induction st ts rule: run_turns.induct)
  case (1 st)
  then show ?case by simp
next
  case (2 st env message rest)
  show ?case
    using "2.IH" step_keeps [of st env message] by (simp; blast)
qed

subsection \<open>The flag of the vomiting rule\<close>

lemma lower_char_not_V: "lower_char c \<noteq> CHR ''V''"
  by (cases c) (auto simp: lower_char_def is_upper_def)

lemma lower_not_Vomiting: "''Vomiting blood'' \<notin> set (map lower xs)"
proof
  assume "''Vomiting blood'' \<in> set (map lower xs)"
  then obtain s where "lower s = ''Vomiting blood''" by auto
  then show False using lower_char_not_V by (cases s) (auto simp: lower_def)
qed

lemma vomiting_blood_iff:
  "''Vomiting blood'' \<in> set (red_flag_check md cs) \<longleftrightarrow>
     ''vomiting'' \<in> set (associated_symptoms cs) \<and> sublist ''blood'' (lower (case_summary_text cs))"
proof -
  have "''Vomiting blood'' \<notin>
        set (filter (emergency_hit (lower (case_summary_text cs))) (map lower (emergency_symptoms md)))"
    using lower_not_Vomiting [of "emergency_symptoms md"] by simp
  then show ?thesis
    by (simp add: red_flag_check_def Let_def set_dict_fromkeys del: set_filter set_map)
qed

lemma vomiting_turn_case:
  "current_case (snd (get_response stub_env initial_state ''i am vomiting blood'')) =
     \<lparr>onset = None, location = None, severity = None,
      associated_symptoms = [''vomiting''], duration = None\<rparr>"
  by code_simp

subsection \<open>The matcher is sound\<close>

lemma take_takeWhile: "j \<le> length (takeWhile P xs) \<Longrightarrow> take j xs = take j (takeWhile P xs)"
  by (metis append_eq_conv_conj takeWhile_dropWhile_id take_append diff_is_0_eq take_0 append_Nil2)

lemma take_split:
  "i \<le> mid \<Longrightarrow> mid \<le> e \<Longrightarrow>
   take (e - i) (drop i t) = take (mid - i) (drop i t) @ take (e - mid) (drop mid t)"
proof -
  assume a: "i \<le> mid" "mid \<le> e"
  then have "e - i = (mid - i) + (e - mid)" by simp
  then have "take (e - i) (drop i t) = take (mid - i) (drop i t) @ take (e - mid) (drop (mid - i) (drop i t))"
    by (simp only: take_add)
  then show ?thesis using a by simp
qed

lemma rx_match_sound:
  "e \<in> set (rx_match r t i) \<Longrightarrow> i \<le> e \<and> matches r (take (e - i) (drop i t))"
proof (induction r arbitrary: i e)
  case (Lit w)
  then show ?case by (auto split: if_splits)
next
  case Bnd
  then show ?case by (auto split: if_splits)
next
  case (Many k n)
  then obtain j where j: "e = i + j" "n \<le> j" "j \<le> length (takeWhile (in_cls k) (drop i t))"
    by (auto simp: Let_def)
  have "take j (drop i t) = take j (takeWhile (in_cls k) (drop i t))"
    using j(3) by (rule take_takeWhile)
  moreover have "list_all (in_cls k) (take j (takeWhile (in_cls k) (drop i t)))"
    by (metis (no_types, lifting) in_set_takeD list_all_iff set_takeWhileD)
  moreover have "length (take j (takeWhile (in_cls k) (drop i t))) = j"
    using j(3) by simp
  ultimately show ?case using j by simp
next
  case (Alt a b)
  then show ?case by auto
next
  case (Seq a b)
  then obtain mid where m: "mid \<in> set (rx_match a t i)" "e \<in> set (rx_match b t mid)"
    by auto
  from Seq.IH(1) [OF m(1)] Seq.IH(2) [OF m(2)]
  have "i \<le> mid" "mid \<le> e" "matches a (take (mid - i) (drop i t))"
    "matches b (take (e - mid) (drop mid t))" by auto
  then show ?case using take_split [of i mid e t] by auto
qed

lemma search_from_sound:
  "search_from r t is = Some m \<Longrightarrow> snd m \<in> set (rx_match r t (fst m))"
  by (induction "is") (auto split: list.splits)

lemma re_search_sound: "re_search r t = Some m \<Longrightarrow> matches r (group0 t m)"
  using search_from_sound [of r t _ m] rx_match_sound [of "snd m" r t "fst m"]
  by (simp add: re_search_def group0_def)


lemma oo_scan_append: "oo_scan q (a @ b) = oo_scan (oo_scan q a) b"
  by (induction a arbitrary: q) auto

lemma oo_scan_Found: "oo_scan Found s = Found"
  by (induction s) auto

lemma oo_scan_two: "is_o x \<Longrightarrow> is_o y \<Longrightarrow> oo_scan q [x, y] = Found"
  by (cases q) auto

lemma oo_found:
  assumes "sublist ''oo'' (lower s)"
  shows "oo_scan q s = Found"
proof -
  obtain ps ss where "map lower_char s = ps @ ''oo'' @ ss"
    using assms unfolding sublist_def lower_def by blast
  then obtain a r where ar: "s = a @ r" "map lower_char r = CHR ''o'' # CHR ''o'' # ss"
    unfolding map_eq_append_conv by auto
  from ar(2) obtain x r' where x: "r = x # r'" "lower_char x = CHR ''o''"
    "map lower_char r' = CHR ''o'' # ss"
    unfolding map_eq_Cons_conv by blast
  from x(3) obtain y b where y: "r' = y # b" "lower_char y = CHR ''o''"
    unfolding map_eq_Cons_conv by blast
  have o: "is_o x" "is_o y" using x(2) y(2) by (simp_all add: is_o_def)
  have "s = a @ [x, y] @ b" using ar(1) x(1) y(1) by simp
  then have "oo_scan q s = oo_scan (oo_scan (oo_scan q a) [x, y]) b"
    by (simp only: oo_scan_append)
  then show ?thesis
    by (simp only: oo_scan_two [OF o] oo_scan_Found)
qed

lemma blood_has_oo:
  assumes "sublist ''blood'' t"
  shows "sublist ''oo'' t"
proof -
  obtain ps ss where "t = ps @ ''blood'' @ ss"
    using assms unfolding sublist_def by blast
  then have "t = (ps @ ''bl'') @ ''oo'' @ (''d'' @ ss)" by simp
  then show ?thesis unfolding sublist_def by blast
qed

lemma below_A_not_o:
  assumes "c < CHR ''A''"
  shows "\<not> is_o c"
proof
  assume o: "is_o c"
  have u: "\<not> is_upper c" using assms by (auto simp: is_upper_def)
  then have "c = CHR ''o''" using o by (simp add: is_o_def lower_char_def)
  then show False using assms by simp
qed

lemma no_class_o:
  "is_digit c \<Longrightarrow> \<not> is_o c" "is_space c \<Longrightarrow> \<not> is_o c"
proof -
  have a: "CHR ''9'' < CHR ''A''" "CHR 0x0D < CHR ''A''" "CHR 0x20 < CHR ''A''" by simp_all
  show "\<not> is_o c" if "is_digit c"
  proof (rule below_A_not_o)
    from that have "c \<le> CHR ''9''" by (simp add: is_digit_def)
    then show "c < CHR ''A''" using a(1) by (rule le_less_trans)
  qed
  show "\<not> is_o c" if "is_space c"
  proof (rule below_A_not_o)
    from that have "c \<le> CHR 0x0D \<or> c \<le> CHR 0x20" unfolding is_space_def by blast
    then show "c < CHR ''A''" using a(2,3) le_less_trans by blast
  qed
qed

lemma oo_scan_no_o:
  "list_all (\<lambda>c. \<not> is_o c) s \<Longrightarrow> q \<noteq> Found \<Longrightarrow> oo_scan q s \<noteq> Found"
proof (induction s arbitrary: q)
  case Nil
  then show ?case by simp
next
  case (Cons c s)
  then have "oo_step q c = Start" by (cases q) simp_all
  then show ?case using Cons.IH [of Start] Cons.prems(1) by simp
qed

lemma oo_scan_cls:
  assumes "list_all (in_cls k) s" "q \<noteq> Found"
  shows "oo_scan q s \<noteq> Found"
proof -
  have "\<not> is_o c" if "in_cls k c" for c
    using that no_class_o [of c] by (cases k) simp_all
  then have "list_all (\<lambda>c. \<not> is_o c) s"
    using assms(1) by (simp add: list_all_iff)
  then show ?thesis using assms(2) by (rule oo_scan_no_o)
qed


lemma matches_SeqE:
  assumes "matches (Seq a b) s"
  obtains s1 s2 where "s = s1 @ s2" "matches a s1" "matches b s2"
  using assms by auto

lemma number_words: "list_all (\<lambda>w. oo_scan Start w \<noteq> Found)
    [''one'', ''two'', ''three'', ''four'', ''five'']"
  by code_simp

lemma unit_words: "list_all (\<lambda>w. oo_scan Start w \<noteq> Found \<and> oo_scan SeenO w \<noteq> Found)
    [''hour'', ''hours'', ''day'', ''days'']"
  by code_simp

lemma duration_oo_free:
  assumes "matches duration_rx d"
  shows "oo_scan Start d \<noteq> Found"
proof -
  let ?N = "alts (Many Digit 1) [Lit ''one'', Lit ''two'', Lit ''three'', Lit ''four'', Lit ''five'']"
  let ?U = "alts (Lit ''hour'') [Lit ''hours'', Lit ''day'', Lit ''days'']"
  have "duration_rx = Seq Bnd (Seq ?N (Seq (Many Space 0) (Seq ?U Bnd)))"
    by (simp add: duration_rx_def)
  with assms have "matches (Seq Bnd (Seq ?N (Seq (Many Space 0) (Seq ?U Bnd)))) d"
    by (simp only:)
  then obtain b1 r1 where 1: "d = b1 @ r1" "matches Bnd b1"
    "matches (Seq ?N (Seq (Many Space 0) (Seq ?U Bnd))) r1"
    by (rule matches_SeqE)
  from 1(3) obtain num r2 where 2: "r1 = num @ r2" "matches ?N num"
    "matches (Seq (Many Space 0) (Seq ?U Bnd)) r2"
    by (rule matches_SeqE)
  from 2(3) obtain sp r3 where 3: "r2 = sp @ r3" "matches (Many Space 0) sp"
    "matches (Seq ?U Bnd) r3"
    by (rule matches_SeqE)
  from 3(3) obtain unit b2 where 4: "r3 = unit @ b2" "matches ?U unit" "matches Bnd b2"
    by (rule matches_SeqE)
  have d: "d = num @ sp @ unit"
    using 1(1,2) 2(1) 3(1) 4(1,3) by simp
  have "(1 \<le> length num \<and> list_all (in_cls Digit) num) \<or>
        num \<in> set [''one'', ''two'', ''three'', ''four'', ''five'']"
    using 2(2) unfolding alts.simps matches.simps set_simps by blast
  then have n: "oo_scan Start num \<noteq> Found"
    using oo_scan_cls [of Digit num Start] number_words unfolding list_all_iff by blast
  have "list_all (in_cls Space) sp" using 3(2) by simp
  then have s: "oo_scan (oo_scan Start num) sp \<noteq> Found"
    using n by (rule oo_scan_cls)
  have "unit \<in> set [''hour'', ''hours'', ''day'', ''days'']"
    using 4(2) unfolding alts.simps matches.simps set_simps by blast
  then have u: "oo_scan Start unit \<noteq> Found \<and> oo_scan SeenO unit \<noteq> Found"
    using unit_words unfolding list_all_iff by blast
  have "oo_scan q unit \<noteq> Found" if "q \<noteq> Found" for q
    using that u by (cases q) simp_all
  from this [OF s] show ?thesis
    unfolding d oo_scan_append .
qed

subsection \<open>No reachable case summary contains the word blood\<close>

lemma value_words:
  "list_all (\<lambda>w. oo_scan Start w \<noteq> Found)
     ([''today'', ''yesterday'', ''mild'', ''moderate'', ''severe'', ''abdominal pain''] @
      map fst location_map @ assoc_terms)"
  by code_simp

lemma label_scan:
  "oo_scan Start ''onset '' = Start" "oo_scan Start ''duration '' = Start"
  "oo_scan Start ''location '' = Start" "oo_scan Start ''severity '' = Start"
  "oo_scan Start ''symptoms '' = Start"
  by code_simp+

lemma sep_scan:
  assumes "q \<noteq> Found"
  shows "oo_scan q ''; '' = Start" "oo_scan q '', '' = Start"
proof -
  have "oo_scan Start ''; '' = Start \<and> oo_scan SeenO ''; '' = Start \<and>
        oo_scan Start '', '' = Start \<and> oo_scan SeenO '', '' = Start"
    by code_simp
  then show "oo_scan q ''; '' = Start" "oo_scan q '', '' = Start"
    using assms by (cases q; simp)+
qed

lemma join_scan:
  assumes "\<forall>q. q \<noteq> Found \<longrightarrow> oo_scan q sep = Start"
    and "\<forall>p\<in>set ps. oo_scan Start p \<noteq> Found"
  shows "oo_scan Start (join sep ps) \<noteq> Found"
  using assms(2)
proof (induction ps rule: induct_list012)
  case 1
  then show ?case by simp
next
  case (2 x)
  then show ?case by simp
next
  case (3 x y zs)
  have "oo_scan Start x \<noteq> Found" using "3.prems" by simp
  then have "oo_scan (oo_scan Start x) sep = Start" using assms(1) by blast
  then show ?case using "3.IH"(2) "3.prems" by (simp add: oo_scan_append)
qed

lemma oo_free_simps: "oo_free None" "oo_free (Some s) = (oo_scan Start s \<noteq> Found)"
  by (simp_all add: oo_free_def)

lemma extract_onset_oo_free: "oo_free (extract_onset t)"
  using value_words by (simp add: extract_onset_def Let_def oo_free_simps)

lemma extract_severity_oo_free: "oo_free (extract_severity t)"
  using value_words by (simp add: extract_severity_def oo_free_simps)

lemma extract_location_oo_free: "oo_free (extract_location t)"
proof (cases "extract_location t")
  case None
  then show ?thesis by (simp add: oo_free_simps)
next
  case (Some l)
  then obtain e where "find (\<lambda>(loc_label, patterns). any_in patterns t) location_map = Some e"
    "l = fst e"
    by (auto simp: extract_location_def)
  then obtain i where "i < length location_map" "location_map ! i = e"
    unfolding find_Some_iff by blast
  then have "e \<in> set location_map" using nth_mem by metis
  then have "l \<in> set (map fst location_map)"
    using \<open>l = fst e\<close> by simp
  then show ?thesis using value_words Some by (simp add: oo_free_simps list_all_iff)
qed

lemma extract_duration_oo_free: "oo_free (extract_duration t)"
  using re_search_sound [of duration_rx t] duration_oo_free
  by (auto simp: extract_duration_def oo_free_simps split: option.splits)

lemma extract_symptoms_oo_free:
  "list_all (\<lambda>x. oo_scan Start x \<noteq> Found) (extract_symptoms t)"
proof -
  have "set (extract_symptoms t) \<subseteq> set assoc_terms"
    by (auto simp: extract_symptoms_def Let_def set_fold_set_add set_set_add assoc_terms_def)
  then show ?thesis using value_words by (auto simp: list_all_iff)
qed

lemma extract_oo_free: "oo_free_case (extract_structured_facts m)"
  by (simp add: oo_free_case_def extract_structured_facts_def Let_def extract_onset_oo_free
      extract_severity_oo_free extract_location_oo_free extract_duration_oo_free
      extract_symptoms_oo_free)

lemma update_oo_free:
  assumes "oo_free_case fs" "oo_free_case cs"
  shows "oo_free_case (update_case_state fs cs)"
  using assms by (auto simp: oo_free_case_def update_case_state_fields list_all_iff)

lemma scalar_part_scan:
  assumes "oo_free v" "oo_scan Start label = Start" "p \<in> set (scalar_part label v)"
  shows "oo_scan Start p \<noteq> Found"
  using assms by (cases v) (auto simp: scalar_part_def oo_free_simps oo_scan_append split: if_splits)

lemma summary_oo_free:
  assumes "oo_free_case cs"
  shows "oo_scan Start (case_summary_text cs) \<noteq> Found"
proof -
  have syms: "oo_scan Start (''symptoms '' @ join '', '' (sorted_set (associated_symptoms cs))) \<noteq> Found"
  proof -
    have "\<forall>p\<in>set (sorted_set (associated_symptoms cs)). oo_scan Start p \<noteq> Found"
      using assms by (simp add: oo_free_case_def sorted_set_eq list_all_iff)
    then have "oo_scan Start (join '', '' (sorted_set (associated_symptoms cs))) \<noteq> Found"
      using join_scan [of "'', ''"] sep_scan(2) by blast
    then show ?thesis unfolding oo_scan_append label_scan .
  qed
  have f: "oo_free (onset cs)" "oo_free (duration cs)" "oo_free (location cs)"
    "oo_free (severity cs)"
    using assms by (simp_all add: oo_free_case_def)
  have parts: "\<forall>p\<in>set (summary_parts cs). oo_scan Start p \<noteq> Found"
  proof
    fix p
    assume "p \<in> set (summary_parts cs)"
    then consider "p \<in> set (scalar_part ''onset '' (onset cs))"
      | "p \<in> set (scalar_part ''duration '' (duration cs))"
      | "p \<in> set (scalar_part ''location '' (location cs))"
      | "p \<in> set (scalar_part ''severity '' (severity cs))"
      | "p = ''symptoms '' @ join '', '' (sorted_set (associated_symptoms cs))"
      unfolding summary_parts_def set_append by (auto split: if_splits)
    then show "oo_scan Start p \<noteq> Found"
    proof cases
      case 1
      then show ?thesis by (rule scalar_part_scan [OF f(1) label_scan(1)])
    next
      case 2
      then show ?thesis by (rule scalar_part_scan [OF f(2) label_scan(2)])
    next
      case 3
      then show ?thesis by (rule scalar_part_scan [OF f(3) label_scan(3)])
    next
      case 4
      then show ?thesis by (rule scalar_part_scan [OF f(4) label_scan(4)])
    next
      case 5
      then show ?thesis using syms by simp
    qed
  qed
  have "oo_scan Start (join ''; '' (summary_parts cs)) \<noteq> Found"
    using parts join_scan [of "''; ''"] sep_scan(1) by blast
  moreover have "oo_scan Start ''abdominal pain'' \<noteq> Found"
    using value_words by simp
  ultimately show ?thesis by (simp add: case_summary_text_def Let_def)
qed

lemma run_oo_free:
  "oo_free_case (current_case st) \<Longrightarrow> oo_free_case (current_case (run_turns st ts))"
proof (induction st ts rule: run_turns.induct)
  case (1 st)
  then show ?case by simp
next
  case (2 st env message rest)
  have "oo_free_case (current_case (snd (get_response env st message)))"
    using step_case [of env st message] "2.prems" update_oo_free [OF extract_oo_free]
    by auto
  then show ?case using "2.IH" by simp
qed

lemma vomiting_blood_never_flagged:
  "''Vomiting blood'' \<notin> set (red_flag_check md (current_case (run_turns initial_state ts)))"
proof -
  have "oo_free_case (current_case initial_state)"
    by (simp add: initial_state_def empty_case_def oo_free_case_def oo_free_simps)
  then have "oo_scan Start (case_summary_text (current_case (run_turns initial_state ts))) \<noteq> Found"
    by (intro summary_oo_free run_oo_free)
  then have "\<not> sublist ''oo'' (lower (case_summary_text (current_case (run_turns initial_state ts))))"
    using oo_found [of "case_summary_text (current_case (run_turns initial_state ts))" Start]
    by blast
  then have "\<not> sublist ''blood'' (lower (case_summary_text (current_case (run_turns initial_state ts))))"
    using blood_has_oo [of "lower (case_summary_text (current_case (run_turns initial_state ts)))"]
    by blast
  then show ?thesis by (simp add: vomiting_blood_iff)
qed

subsection \<open>Red flags\<close>

text \<open>
  Claim C1. For every case state and every knowledge base, the list returned by the
  red-flag check contains \<open>Severe abdominal pain\<close> whenever the severity is
  \<open>severe\<close>, and contains \<open>Pain with fever\<close> whenever \<open>fever\<close> is one of the
  associated symptoms.
\<close>

theorem red_flag_explicit_rules:
  "(severity cs = Some ''severe'' \<longrightarrow> ''Severe abdominal pain'' \<in> set (red_flag_check md cs)) \<and>
   (''fever'' \<in> set (associated_symptoms cs) \<longrightarrow> ''Pain with fever'' \<in> set (red_flag_check md cs))"
  by (simp add: red_flag_check_def Let_def set_dict_fromkeys)

theorem red_flag_explicit_rules_witness:
  "severity case_example = Some ''severe'' \<and>
   ''fever'' \<in> set (associated_symptoms case_example) \<and>
   ''Severe abdominal pain'' \<in> set (red_flag_check md_example case_example) \<and>
   ''Pain with fever'' \<in> set (red_flag_check md_example case_example)"
  using red_flag_explicit_rules [of case_example md_example]
  by (simp add: case_example_def)

text \<open>
  Claim C2 says that \<open>Vomiting blood\<close> is flagged exactly when \<open>vomiting\<close> is an
  associated symptom and the raw message contains \<open>blood\<close>. The rule of the source
  looks for \<open>blood\<close> in the lower-cased case summary, not in the message (lemma
  \<open>vomiting_blood_iff\<close>), and no summary that a conversation can reach contains it
  (lemma \<open>vomiting_blood_never_flagged\<close>). At the first turn \<open>i am vomiting blood\<close> of a fresh session
  the message contains \<open>blood\<close> and the case holds \<open>vomiting\<close>, and the flag is
  not raised.
\<close>

theorem vomiting_blood_not_flagged:
  "sublist ''blood'' ''i am vomiting blood'' \<and>
   ''vomiting'' \<in> set (associated_symptoms
      (current_case (snd (get_response stub_env initial_state ''i am vomiting blood'')))) \<and>
   ''Vomiting blood'' \<notin> set (red_flag_check (medical_data stub_env)
      (current_case (snd (get_response stub_env initial_state ''i am vomiting blood''))))"
proof -
  have a: "sublist ''blood'' ''i am vomiting blood''" by code_simp
  have b: "red_flag_check (medical_data stub_env)
      \<lparr>onset = None, location = None, severity = None,
       associated_symptoms = [''vomiting''], duration = None\<rparr> = []"
    by code_simp
  show ?thesis using a b by (simp add: vomiting_turn_case)
qed

subsection \<open>Severity extraction\<close>

text \<open>
  Claim C4. The severity extracted from a message is decided on the lower-cased
  message by the substrings \<open>mild\<close>, then \<open>moderate\<close>, then \<open>severe\<close> or
  \<open>worst\<close>, and the first hit wins; in particular a message that contains both
  \<open>mild\<close> and \<open>severe\<close> has the severity \<open>mild\<close>.
\<close>

theorem severity_first_hit_wins:
  "severity (extract_structured_facts message) =
     (if sublist ''mild'' (lower message) then Some ''mild''
      else if sublist ''moderate'' (lower message) then Some ''moderate''
      else if sublist ''severe'' (lower message) \<or> sublist ''worst'' (lower message)
      then Some ''severe''
      else None) \<and>
   (sublist ''mild'' message \<and> sublist ''severe'' message \<longrightarrow>
      severity (extract_structured_facts message) = Some ''mild'')"
  by (simp add: extract_structured_facts_def extract_severity_def Let_def sublist_lower lower_mild)

theorem severity_first_hit_wins_witness:
  "sublist ''mild'' ''severe cramps, then mild'' \<and>
   sublist ''severe'' ''severe cramps, then mild'' \<and>
   severity (extract_structured_facts ''severe cramps, then mild'') = Some ''mild''"
proof -
  have h: "sublist ''mild'' ''severe cramps, then mild'' \<and>
           sublist ''severe'' ''severe cramps, then mild''"
    by code_simp
  with severity_first_hit_wins [of "''severe cramps, then mild''"] show ?thesis by blast
qed

subsection \<open>Provider failure\<close>

text \<open>
  Claim C3, as the specification states it: on an in-scope turn that is not a direct
  lookup and on which the embedding provider fails, the turn still completes with a
  response of the "need more detail" branch and the failure is not surfaced. The code
  has no handler around the provider calls, and the statement fails: with a provider
  that raises, the turn \<open>my stomach hurts\<close> of a fresh session ends in the provider's
  exception, and the history entry of the turn has no bot reply.
\<close>

theorem provider_failure_counterexample:
  "get_response failing_env initial_state ''my stomach hurts'' =
     (Inl EmbeddingProviderError,
      \<lparr>conversation_history = [\<lparr>user = ''my stomach hurts'', timestamp = None, bot = None\<rparr>],
       session_in_scope = True, current_case = empty_case\<rparr>)"
proof -
  have a: "get_abdominal_pain_response failing_env empty_case ''my stomach hurts'' =
        ([[''abdominal pain'']], Inl EmbeddingProviderError, empty_case)"
    by code_simp
  show ?thesis
    by (simp add: get_response_in_scope [OF stomach_msg(1) disjI2 [OF stomach_msg(3)]] a Let_def
        initial_state_def)
qed

text \<open>
  Claim C3, amended. On an in-scope turn that is not a greeting and not a direct
  lookup, with a non-empty list of causes, if the first provider call (the case
  summary) fails, or it succeeds and the second one (the batch of cause texts) fails,
  then \<open>get_response\<close> raises that error to its caller and produces no response. The
  user's message has been appended to the history, without a bot reply; the session is
  in scope; and the facts extracted from the message have been merged into the case.
\<close>

theorem provider_failure_propagates:
  assumes "\<not> is_greeting m"
    and "session_in_scope st \<or> any_in abdominal_keywords (lower m)"
    and "\<not> any_in causes_words (lower m)" and "\<not> any_in symptoms_words (lower m)"
    and "\<not> any_in emergency_words (lower m)" and "\<not> any_in remedy_words (lower m)"
    and "causes (medical_data env) \<noteq> []"
    and "cs' = update_case_state (extract_structured_facts m) (current_case st)"
    and "encode env [case_summary_text cs'] = Inl e \<or>
         (\<exists>vs. encode env [case_summary_text cs'] = Inr vs \<and>
               encode env (map cause_text (causes (medical_data env))) = Inl e)"
  shows "get_response env st m =
           (Inl e,
            st\<lparr>conversation_history :=
                 conversation_history st @ [\<lparr>user = m, timestamp = None, bot = None\<rparr>],
               session_in_scope := True, current_case := cs'\<rparr>)"
proof -
  have "snd (rank_causes env cs') = Inl e"
    using rank_causes_fails [OF assms(7,9)] .
  then have "snd (build_analysis_response env cs') = Inl e"
    by (cases "rank_causes env cs'") (simp add: build_analysis_response_def Let_def)
  then show ?thesis
    using assms(8)
    by (simp add: get_response_in_scope [OF assms(1,2)] analysis_case [OF assms(3-6)] Let_def)
qed

theorem provider_failure_propagates_witness:
  "get_response batch_failing_env
      \<lparr>conversation_history = [], session_in_scope = True, current_case = empty_case\<rparr>
      ''tell me more'' =
     (Inl EmbeddingProviderError,
      \<lparr>conversation_history = [\<lparr>user = ''tell me more'', timestamp = None, bot = None\<rparr>],
       session_in_scope = True, current_case = empty_case\<rparr>)"
proof -
  let ?st = "\<lparr>conversation_history = [], session_in_scope = True, current_case = empty_case\<rparr>"
  have s: "session_in_scope ?st \<or> any_in abdominal_keywords (lower ''tell me more'')"
    by simp
  have c: "causes (medical_data batch_failing_env) \<noteq> []"
    by (simp add: batch_failing_env_def stub_env_def)
  have u: "empty_case = update_case_state (extract_structured_facts ''tell me more'') (current_case ?st)"
    by (simp add: more_facts)
  have e: "encode batch_failing_env [case_summary_text empty_case] = Inl EmbeddingProviderError \<or>
     (\<exists>vs. encode batch_failing_env [case_summary_text empty_case] = Inr vs \<and>
            encode batch_failing_env (map cause_text (causes (medical_data batch_failing_env))) =
              Inl EmbeddingProviderError)"
    by (simp add: batch_failing_env_def stub_env_def)
  show ?thesis
    using provider_failure_propagates [OF more_msg(1) s more_msg(3-6) c u e]
    by simp
qed

subsection \<open>Sticky scope\<close>

text \<open>
  Claim C5. The scope flag is sticky: a turn that starts in scope ends in scope and is
  not answered with the refusal, so over every sequence of turns a flag that is true
  after a prefix is true after every extension; and after the first turn
  \<open>my stomach hurts\<close> of a fresh session the flag is set and the second turn
  \<open>tell me more\<close> is not answered with the refusal, whatever the providers do.
\<close>

theorem scope_is_sticky:
  "(session_in_scope st \<longrightarrow>
      session_in_scope (snd (get_response env st m)) \<and> fst (get_response env st m) \<noteq> Inr refusal) \<and>
   (session_in_scope (run_turns st ts) \<longrightarrow> session_in_scope (run_turns st (ts @ ts'))) \<and>
   session_in_scope (snd (get_response env initial_state ''my stomach hurts'')) \<and>
   fst (get_response env' (snd (get_response env initial_state ''my stomach hurts''))
          ''tell me more'') \<noteq> Inr refusal"
  using in_scope_step [of st env m] run_turns_in_scope [of "run_turns st ts" ts']
    first_hit_sets_scope [OF stomach_msg(1) stomach_msg(3), of env initial_state]
    in_scope_step [of "snd (get_response env initial_state ''my stomach hurts'')" env' "''tell me more''"]
  by (simp add: run_turns_append)

theorem scope_is_sticky_witness:
  "session_in_scope (snd (get_response stub_env initial_state ''my stomach hurts'')) \<and>
   session_in_scope (snd (get_response stub_env
       (snd (get_response stub_env initial_state ''my stomach hurts'')) ''tell me more'')) \<and>
   fst (get_response stub_env (snd (get_response stub_env initial_state ''my stomach hurts''))
          ''tell me more'') \<noteq> Inr refusal \<and>
   session_in_scope (run_turns initial_state
       [(stub_env, ''my stomach hurts''), (failing_env, ''tell me more''), (stub_env, ''thanks'')])"
proof -
  let ?t1 = "(stub_env, ''my stomach hurts'')"
  let ?rest = "[(failing_env, ''tell me more''), (stub_env, ''thanks'')]"
  let ?s1 = "snd (get_response stub_env initial_state ''my stomach hurts'')"
  note a = scope_is_sticky [of initial_state stub_env "''my stomach hurts''" "[?t1]" ?rest stub_env]
  note b = scope_is_sticky [of ?s1 stub_env "''tell me more''" "[]" "[]" stub_env]
  have s1: "session_in_scope ?s1" using a by blast
  have r: "run_turns initial_state [?t1] = ?s1" by simp
  have "session_in_scope (run_turns initial_state ([?t1] @ ?rest))"
    using a s1 unfolding r by blast
  then show ?thesis using a b s1 by simp
qed

subsection \<open>Out-of-scope turns\<close>

text \<open>
  Claim C6. For a message that is not a greeting and has no hit in the scope
  vocabulary, in a session that is not in scope, \<open>get_response\<close> returns the fixed
  refusal, and the only change of the state is the new history entry: every field of
  the case is unchanged.
\<close>

theorem out_of_scope_refusal:
  assumes "\<not> is_greeting m" and "\<not> session_in_scope st"
    and "\<not> any_in abdominal_keywords (lower m)"
  shows "get_response env st m =
           (Inr refusal,
            st\<lparr>conversation_history :=
                 conversation_history st @
                 [\<lparr>user = m, timestamp = None, bot = Some refusal\<rparr>]\<rparr>) \<and>
         current_case (snd (get_response env st m)) = current_case st"
proof -
  have n: "\<not> any_in scope_words (lower m)"
    using assms(3) any_in_scope_words by blast
  have "get_response env st m =
           (Inr refusal,
            st\<lparr>conversation_history :=
                 conversation_history st @
                 [\<lparr>user = m, timestamp = None, bot = Some refusal\<rparr>]\<rparr>)"
    using assms n
    by (simp add: get_response_def is_out_of_scope_def Let_def set_last_bot_snoc)
  then show ?thesis by simp
qed

theorem out_of_scope_refusal_witness:
  "get_response stub_env initial_state ''what's the capital of France'' =
     (Inr refusal,
      initial_state\<lparr>conversation_history :=
        [\<lparr>user = ''what's the capital of France'', timestamp = None,
          bot = Some refusal\<rparr>]\<rparr>) \<and>
   current_case (snd (get_response stub_env initial_state ''what's the capital of France'')) =
     empty_case"
proof -
  have s: "\<not> session_in_scope initial_state" by (simp add: initial_state_def)
  show ?thesis
    using out_of_scope_refusal [OF capital_msg(1) s capital_msg(2), of stub_env]
    by (simp add: initial_state_def)
qed

subsection \<open>Direct knowledge queries\<close>

text \<open>
  Claim C8. \<open>_get_abdominal_pain_response\<close>, which receives every message that
  passes the greeting check and the scope check, tests the keyword groups in the order
  causes, symptoms, emergency, home remedy. When one of them hits, the response is the
  templated list of the first group that hits, joined by newlines; the provider is not
  called and the case is returned as it was. For the turn as a whole, when the message
  is not a greeting and is in scope, the state changes only by the history entry and
  the scope flag.
\<close>

theorem direct_lookup_priority:
  assumes "any_in causes_words (lower m) \<or> any_in symptoms_words (lower m) \<or>
           any_in emergency_words (lower m) \<or> any_in remedy_words (lower m)"
    and "r = join nl (if any_in causes_words (lower m) then responses_causes
                      else if any_in symptoms_words (lower m) then responses_symptoms
                      else if any_in emergency_words (lower m) then responses_when_to_seek_help
                      else responses_home_remedies)"
  shows "get_abdominal_pain_response env cs m = ([], Inr r, cs) \<and>
         (\<not> is_greeting m \<and> (session_in_scope st \<or> any_in abdominal_keywords (lower m)) \<longrightarrow>
          get_response env st m =
            (Inr r,
             st\<lparr>conversation_history :=
                  conversation_history st @ [\<lparr>user = m, timestamp = None, bot = Some r\<rparr>],
                session_in_scope := True\<rparr>))"
proof -
  have d: "get_abdominal_pain_response env c m = ([], Inr r, c)" for c
    unfolding assms(2) by (rule direct_calls [OF assms(1)])
  have "get_response env st m =
           (Inr r,
            st\<lparr>conversation_history :=
                 conversation_history st @ [\<lparr>user = m, timestamp = None, bot = Some r\<rparr>],
               session_in_scope := True\<rparr>)"
    if g: "\<not> is_greeting m" and i: "session_in_scope st \<or> any_in abdominal_keywords (lower m)"
    by (simp add: get_response_in_scope [OF g i] d Let_def set_last_bot_def)
  with d show ?thesis by blast
qed

theorem direct_lookup_priority_witness:
  "get_abdominal_pain_response stub_env case_example
      ''what causes stomach pain and what are the symptoms'' =
     ([], Inr (join nl responses_causes), case_example) \<and>
   get_response stub_env initial_state ''what causes stomach pain and what are the symptoms'' =
     (Inr (join nl responses_causes),
      \<lparr>conversation_history =
         [\<lparr>user = ''what causes stomach pain and what are the symptoms'', timestamp = None,
           bot = Some (join nl responses_causes)\<rparr>],
       session_in_scope = True, current_case = empty_case\<rparr>)"
  using direct_lookup_priority [of "''what causes stomach pain and what are the symptoms''"
      "join nl responses_causes" stub_env case_example initial_state] causes_msg
  by (simp add: initial_state_def)

subsection \<open>Cause ranking\<close>

text \<open>
  Claim C7. For every knowledge base and provider, a ranking that is returned has at
  most three (cause, score) pairs; with an empty cause list the ranker returns the empty
  list and sends nothing to the embedding provider; and no batch that it sends is
  empty. When the cause list is not empty and the provider answers both calls with
  vectors, a ranking is returned, of three pairs or of as many as there are causes with
  a vector.
\<close>

theorem rank_causes_at_most_three:
  "(\<forall>ranked. snd (rank_causes env cs) = Inr ranked \<longrightarrow> length ranked \<le> 3) \<and>
   (causes (medical_data env) = [] \<longrightarrow> rank_causes env cs = ([], Inr [])) \<and>
   [] \<notin> set (fst (rank_causes env cs)) \<and>
   (causes (medical_data env) \<noteq> [] \<and> encode env [case_summary_text cs] = Inr (v # vs) \<and>
    encode env (map cause_text (causes (medical_data env))) = Inr ws \<and> ws \<noteq> [] \<longrightarrow>
      (\<exists>ranked. snd (rank_causes env cs) = Inr ranked \<and>
         length ranked = min 3 (min (length (causes (medical_data env))) (length ws))))"
  by (auto simp: rank_causes_def Let_def length_sorted_desc split: sum.splits list.splits)

theorem rank_causes_at_most_three_witness:
  "length (projr (snd (rank_causes stub_env empty_case))) = 3 \<and>
   causes (medical_data empty_env) = [] \<and>
   rank_causes empty_env empty_case = ([], Inr []) \<and>
   [] \<notin> set (fst (rank_causes stub_env empty_case))"
proof -
  have c: "causes (medical_data stub_env) \<noteq> []"
    "encode stub_env [case_summary_text empty_case] = Inr [14]"
    "encode stub_env (map cause_text (causes (medical_data stub_env))) = Inr [62, 48, 24, 37]"
    by code_simp+
  have l: "length (causes (medical_data stub_env)) = 4"
    by (simp add: stub_env_def)
  show ?thesis
    using rank_causes_at_most_three [of stub_env empty_case 14 "[]" "[62, 48, 24, 37]"]
      rank_causes_at_most_three [of empty_env empty_case 0 "[]" "[]"] c l
    by (auto simp: empty_env_def)
qed

subsection \<open>Case summary\<close>

text \<open>
  Claim C9. The case summary is a function of the case alone. When every field is
  absent it is the literal \<open>abdominal pain\<close>. Two cases with the same scalars and the
  same set of symptoms have the same summary, whatever the internal order of the sets,
  so the order in which two batches of symptoms were added does not show. When there
  are symptoms, the summary ends with \<open>symptoms\<close> followed by the symptoms in
  ascending lexicographic order, each once, separated by a comma and a space.
\<close>

theorem case_summary_deterministic:
  "(\<not> truthy (onset cs) \<and> \<not> truthy (duration cs) \<and> \<not> truthy (location cs) \<and>
    \<not> truthy (severity cs) \<and> associated_symptoms cs = [] \<longrightarrow>
      case_summary_text cs = ''abdominal pain'') \<and>
   (onset cs = onset cs' \<and> duration cs = duration cs' \<and> location cs = location cs' \<and>
    severity cs = severity cs' \<and> set (associated_symptoms cs) = set (associated_symptoms cs') \<longrightarrow>
      case_summary_text cs = case_summary_text cs') \<and>
   (associated_symptoms cs \<noteq> [] \<longrightarrow>
      (\<exists>ys. sorted ys \<and> distinct ys \<and> set ys = set (associated_symptoms cs) \<and>
            suffix (''symptoms '' @ join '', '' ys) (case_summary_text cs))) \<and>
   case_summary_text (cs\<lparr>associated_symptoms := set_update (set_update xs ys) zs\<rparr>) =
     case_summary_text (cs\<lparr>associated_symptoms := set_update (set_update xs zs) ys\<rparr>)"
proof -
  have a: "associated_symptoms cs \<noteq> [] \<longrightarrow>
      (\<exists>ys. sorted ys \<and> distinct ys \<and> set ys = set (associated_symptoms cs) \<and>
            suffix (''symptoms '' @ join '', '' ys) (case_summary_text cs))"
  proof
    assume n: "associated_symptoms cs \<noteq> []"
    let ?ys = "sorted_set (associated_symptoms cs)"
    have "sorted ?ys \<and> distinct ?ys \<and> set ?ys = set (associated_symptoms cs)"
      by (simp add: sorted_set_eq)
    with summary_symptoms_suffix [OF n] show "\<exists>ys. sorted ys \<and> distinct ys \<and>
        set ys = set (associated_symptoms cs) \<and>
        suffix (''symptoms '' @ join '', '' ys) (case_summary_text cs)"
      by blast
  qed
  have b: "case_summary_text (cs\<lparr>associated_symptoms := set_update (set_update xs ys) zs\<rparr>) =
     case_summary_text (cs\<lparr>associated_symptoms := set_update (set_update xs zs) ys\<rparr>)"
    by (rule summary_same_set) (auto simp: set_set_update)
  show ?thesis
    using a b summary_all_absent [of cs] summary_same_set [of cs cs'] by blast
qed

theorem case_summary_deterministic_witness:
  "case_summary_text empty_case = ''abdominal pain'' \<and>
   case_summary_text case_a = case_summary_text case_b \<and>
   case_summary_text case_a = ''onset today; symptoms fever, vomiting''"
proof -
  have v: "case_summary_text case_a = ''onset today; symptoms fever, vomiting''"
    by code_simp
  show ?thesis
    using case_summary_deterministic [of empty_case empty_case "[]" "[]" "[]"]
      case_summary_deterministic [of case_a case_b "[]" "[]" "[]"] v
    by (simp add: empty_case_def case_a_def case_b_def insert_commute)
qed

subsection \<open>Monotone case state\<close>

text \<open>
  Claim C10. The merge of a turn overwrites a scalar field of the case only when the
  extracted facts hold a non-empty value for it, and otherwise leaves it as it is; the
  symptom set after the merge is the union of the old set and the extracted one. Over
  every sequence of turns, whatever the providers do, a scalar field that holds a value
  still holds a value afterwards, and the symptom set only grows.
\<close>

theorem case_fields_never_reset:
  "onset (update_case_state fs cs) = (if truthy (onset fs) then onset fs else onset cs) \<and>
   location (update_case_state fs cs) =
     (if truthy (location fs) then location fs else location cs) \<and>
   severity (update_case_state fs cs) =
     (if truthy (severity fs) then severity fs else severity cs) \<and>
   duration (update_case_state fs cs) =
     (if truthy (duration fs) then duration fs else duration cs) \<and>
   set (associated_symptoms (update_case_state fs cs)) =
     set (associated_symptoms cs) \<union> set (associated_symptoms fs) \<and>
   (truthy (onset (current_case st)) \<longrightarrow> truthy (onset (current_case (run_turns st ts)))) \<and>
   (truthy (duration (current_case st)) \<longrightarrow> truthy (duration (current_case (run_turns st ts)))) \<and>
   (truthy (location (current_case st)) \<longrightarrow> truthy (location (current_case (run_turns st ts)))) \<and>
   (truthy (severity (current_case st)) \<longrightarrow> truthy (severity (current_case (run_turns st ts)))) \<and>
   set (associated_symptoms (current_case st)) \<subseteq>
     set (associated_symptoms (current_case (run_turns st ts)))"
  using run_keeps [of st ts] update_case_state_fields [of fs cs] by simp

theorem case_fields_never_reset_witness:
  "truthy (onset (current_case (snd (get_response stub_env initial_state first_turn)))) \<and>
   truthy (location (current_case (snd (get_response stub_env initial_state first_turn)))) \<and>
   truthy (severity (current_case (snd (get_response stub_env initial_state first_turn)))) \<and>
   truthy (onset (current_case (run_turns initial_state
      [(stub_env, first_turn), (failing_env, second_turn)]))) \<and>
   truthy (location (current_case (run_turns initial_state
      [(stub_env, first_turn), (failing_env, second_turn)]))) \<and>
   truthy (severity (current_case (run_turns initial_state
      [(stub_env, first_turn), (failing_env, second_turn)]))) \<and>
   severity (update_case_state (extract_structured_facts second_turn)
      (current_case (snd (get_response stub_env initial_state first_turn)))) = Some ''mild''"
proof -
  let ?s1 = "snd (get_response stub_env initial_state first_turn)"
  have r: "run_turns initial_state [(stub_env, first_turn), (failing_env, second_turn)] =
           run_turns ?s1 [(failing_env, second_turn)]"
    by simp
  show ?thesis
    unfolding r
    using case_fields_never_reset [of "extract_structured_facts second_turn" "current_case ?s1"
        ?s1 "[(failing_env, second_turn)]"]
    by (simp add: first_turn_case second_turn_facts)
qed

end
